theory Spec2Isabelle
  imports Complex_Main
begin

section \<open>Guided Inbetween: the watcher, the start and stop commands, the renderer's lookup\<close>

text \<open>
  A shallow embedding of \<^verbatim>\<open>guided_tweening.py\<close>. The module keeps its session in
  global variables; here they are the fields of the record \<open>session\<close>, and every function
  that assigns a global takes the session and returns the new one. What the host
  application shows to one call (the active object, the scene settings, the clock) is the
  record \<open>env\<close>. Floating-point values (positions, the clock) are read as reals; no
  arithmetic is done on positions, and the only arithmetic on the clock is the debounce
  test.
\<close>

subsection \<open>The host document\<close>

type_synonym vec = "real \<times> real \<times> real"

text \<open>A stroke is the list of its points' positions; a drawing is its list of strokes.\<close>

type_synonym stroke = "vec list"

record gp_frame =
  frame_number :: int
  drawing :: "stroke list option"

record gp_layer =
  frames :: "gp_frame list"
  active_frame :: "gp_frame option"

record gp_object =
  obj_type :: string
  layers :: "gp_layer list"
  layers_active :: "gp_layer option"
  matrix_world :: "vec \<Rightarrow> vec"

record scene =
  frame_current :: int
  gi_lock_frame :: "bool option"
  gi_advance_on_release :: "bool option"
  gi_integrity_check :: "int option"

record bpy_context =
  object :: "gp_object option"
  scene :: scene

text \<open>
  The host calls of the module that are not total: a call listed here may raise an
  \<^verbatim>\<open>Exception\<close>. The module guards some of them itself (\<open>ReadPointlen\<close>,
  \<open>CopyStrokes\<close>, \<open>LenStrokes\<close>, \<open>IterStrokes\<close>, \<open>HandlerAdd\<close>, \<open>HandlerRemove\<close>
  sit inside a \<^verbatim>\<open>try\<close> of their own); the others raise to the caller.
\<close>

datatype host_call =
    ReadContext | ReadStrokeCount | LenStrokes | IterStrokes | ReadPointlen
  | ReadSnapshot | CopyStrokes | TagRedraw | HandlerAdd | HandlerRemove

datatype exn = Exception

type_synonym handle = nat

record env =
  ctx :: bpy_context
  now :: real
  raises :: "host_call \<Rightarrow> bool"
  new_handle :: handle

subsection \<open>Globals / State\<close>

record session =
  draw_handle :: "handle option"
  timer_keep :: bool
  guide_strokes_world :: "stroke list"
  guide_index :: int
  monitored_frame :: "int option"
  last_current_frame_count :: int
  pending_active :: bool
  pending_target :: int
  pending_time :: real
  pending_last_pointlen :: int
  advances_since_check :: int

definition debounce_seconds :: real where
  "debounce_seconds = 35 / 100"

text \<open>The module's initial values of the globals.\<close>

definition initial_session :: session where
  "initial_session =
     \<lparr>draw_handle = None, timer_keep = False, guide_strokes_world = [], guide_index = 0,
      monitored_frame = None, last_current_frame_count = 0, pending_active = False,
      pending_target = 0, pending_time = 0, pending_last_pointlen = 0,
      advances_since_check = 0\<rparr>"

text \<open>\<^verbatim>\<open>getattr(scene, name, default)\<close> for the three settings the watcher reads.\<close>

definition lock_frame :: "env \<Rightarrow> bool" where
  "lock_frame e = (case gi_lock_frame (scene (ctx e)) of None \<Rightarrow> False | Some b \<Rightarrow> b)"

definition advance_on_release :: "env \<Rightarrow> bool" where
  "advance_on_release e =
     (case gi_advance_on_release (scene (ctx e)) of None \<Rightarrow> False | Some b \<Rightarrow> b)"

definition integrity_check :: "env \<Rightarrow> int" where
  "integrity_check e = (case gi_integrity_check (scene (ctx e)) of None \<Rightarrow> 3 | Some n \<Rightarrow> n)"

subsection \<open>Helpers\<close>

definition get_active_gp :: "bpy_context \<Rightarrow> gp_object option" where
  "get_active_gp c =
     (case object c of
        None \<Rightarrow> None
      | Some ob \<Rightarrow> if obj_type ob = ''GREASEPENCIL'' then Some ob else None)"

text \<open>
  The loop of \<^verbatim>\<open>find_nearest_previous_frame\<close>, with its two variables \<^verbatim>\<open>nearest\<close>
  and \<^verbatim>\<open>best\<close> (\<open>None\<close> is the initial infinity).
\<close>

fun nearest_loop :: "gp_frame list \<Rightarrow> int \<Rightarrow> gp_frame option \<Rightarrow> int option \<Rightarrow> gp_frame option" where
  "nearest_loop [] cur nearest best = nearest"
| "nearest_loop (fr # frs) cur nearest best =
     (case drawing fr of
        None \<Rightarrow> nearest_loop frs cur nearest best
      | Some ds \<Rightarrow>
          if frame_number fr < cur then
            (if ds = [] then nearest_loop frs cur nearest best
             else
               (let d = cur - frame_number fr in
                if (case best of None \<Rightarrow> True | Some b \<Rightarrow> d < b)
                then nearest_loop frs cur (Some fr) (Some d)
                else nearest_loop frs cur nearest best))
          else nearest_loop frs cur nearest best)"

definition find_nearest_previous_frame :: "gp_layer \<Rightarrow> int \<Rightarrow> gp_frame option" where
  "find_nearest_previous_frame layer current_frame_num =
     nearest_loop (frames layer) current_frame_num None None"

text \<open>
  \<^verbatim>\<open>get_previous_frame_strokes_world\<close>: \<open>Inl\<close> when a host access outside its
  \<^verbatim>\<open>try\<close> raises; the copy loop is inside the \<^verbatim>\<open>try\<close> and gives the empty list
  on failure.
\<close>

definition get_previous_frame_strokes_world :: "env \<Rightarrow> exn + stroke list" where
  "get_previous_frame_strokes_world e =
     (if raises e ReadSnapshot then Inl Exception
      else
        (case get_active_gp (ctx e) of
           None \<Rightarrow> Inr []
         | Some ob \<Rightarrow>
             (case layers_active ob of
                None \<Rightarrow> Inr []
              | Some layer \<Rightarrow>
                  if layers ob = [] then Inr []
                  else
                    (case find_nearest_previous_frame layer (frame_current (scene (ctx e))) of
                       None \<Rightarrow> Inr []
                     | Some nearest \<Rightarrow>
                         if raises e CopyStrokes then Inr []
                         else
                           (case drawing nearest of
                              None \<Rightarrow> Inr []
                            | Some ds \<Rightarrow>
                                Inr (filter (\<lambda>pts. 1 \<le> length pts)
                                       (map (map (matrix_world ob)) ds)))))))"

text \<open>
  The frame both counting helpers look for: the layer's active frame when its number
  matches, else the first frame of the layer with that number. The number is a Python
  value that may be \<^verbatim>\<open>None\<close>, which equals no frame number.
\<close>

definition find_frame :: "gp_layer \<Rightarrow> int option \<Rightarrow> gp_frame option" where
  "find_frame layer fno =
     (case active_frame layer of
        Some af \<Rightarrow>
          if Some (frame_number af) = fno then Some af
          else find (\<lambda>f. Some (frame_number f) = fno) (frames layer)
      | None \<Rightarrow> find (\<lambda>f. Some (frame_number f) = fno) (frames layer))"

definition get_frame_stroke_count :: "env \<Rightarrow> int option \<Rightarrow> exn + int" where
  "get_frame_stroke_count e fno =
     (if raises e ReadStrokeCount then Inl Exception
      else
        (case get_active_gp (ctx e) of
           None \<Rightarrow> Inr 0
         | Some ob \<Rightarrow>
             (case layers_active ob of
                None \<Rightarrow> Inr 0
              | Some layer \<Rightarrow>
                  if layers ob = [] then Inr 0
                  else
                    (case find_frame layer fno of
                       None \<Rightarrow> Inr 0
                     | Some fr \<Rightarrow>
                         (case drawing fr of
                            None \<Rightarrow> Inr 0
                          | Some ds \<Rightarrow>
                              if raises e LenStrokes \<and> raises e IterStrokes then Inr 0
                              else Inr (int (length ds)))))))"

definition get_last_stroke_pointlen :: "env \<Rightarrow> int option \<Rightarrow> int" where
  "get_last_stroke_pointlen e fno =
     (if raises e ReadPointlen then 0
      else
        (case get_active_gp (ctx e) of
           None \<Rightarrow> 0
         | Some ob \<Rightarrow>
             (case layers_active ob of
                None \<Rightarrow> 0
              | Some layer \<Rightarrow>
                  (case find_frame layer fno of
                     None \<Rightarrow> 0
                   | Some fr \<Rightarrow>
                       (case drawing fr of
                          None \<Rightarrow> 0
                        | Some ds \<Rightarrow> if ds = [] then 0 else int (length (last ds)))))))"

subsection \<open>Timer / watcher\<close>

text \<open>
  The body of the watcher's \<^verbatim>\<open>try\<close> either runs to its end or is cut by an exception;
  the assignments made before the exception stay, so both outcomes carry the session.
\<close>

datatype outcome = Done session | Raised session

fun session_of :: "outcome \<Rightarrow> session" where
  "session_of (Done s) = s"
| "session_of (Raised s) = s"

text \<open>The loop over windows and areas that tags every 3D view for redraw.\<close>

definition tag_redraw_all :: "env \<Rightarrow> session \<Rightarrow> outcome" where
  "tag_redraw_all e s = (if raises e TagRedraw then Raised s else Done s)"

text \<open>
  The advance, written twice in the source (pending commit and immediate mode) with the
  same text up to the name of the new count: clamp the index, set the last-seen count,
  count the advances, replace the stroke list when the counter reaches the interval,
  request a redraw.
\<close>

definition advance :: "env \<Rightarrow> int \<Rightarrow> int \<Rightarrow> session \<Rightarrow> outcome" where
  "advance e added new_count s =
     (let s1 = s\<lparr>guide_index :=
                   min (guide_index s + added)
                       (max 0 (int (length (guide_strokes_world s)) - 1)),
                 last_current_frame_count := new_count,
                 advances_since_check := advances_since_check s + added\<rparr>
      in if integrity_check e \<le> advances_since_check s1 then
           (let s2 = s1\<lparr>advances_since_check := 0\<rparr>
            in case get_previous_frame_strokes_world e of
                 Inl x \<Rightarrow> Raised s2
               | Inr snap \<Rightarrow> tag_redraw_all e (s2\<lparr>guide_strokes_world := snap\<rparr>))
         else tag_redraw_all e s1)"

definition clear_pending :: "outcome \<Rightarrow> outcome" where
  "clear_pending r =
     (case r of Done s \<Rightarrow> Done (s\<lparr>pending_active := False\<rparr>) | Raised s \<Rightarrow> Raised s)"

text \<open>The two values every poll reads first: the current frame and its stroke count.\<close>

definition current_frame :: "env \<Rightarrow> int" where
  "current_frame e = frame_current (scene (ctx e))"

definition current_count :: "env \<Rightarrow> exn + int" where
  "current_count e = get_frame_stroke_count e (Some (current_frame e))"

definition watch_body :: "env \<Rightarrow> session \<Rightarrow> outcome" where
  "watch_body e s =
     (if raises e ReadContext then Raised s
      else
        (case current_count e of
           Inl x \<Rightarrow> Raised s
         | Inr c \<Rightarrow>
             if monitored_frame s = None \<or> Some (current_frame e) \<noteq> monitored_frame s then
               (if lock_frame e \<and> monitored_frame s \<noteq> None then
                  Done (s\<lparr>last_current_frame_count := c, pending_active := False\<rparr>)
                else
                  tag_redraw_all e
                    (s\<lparr>monitored_frame := Some (current_frame e),
                       last_current_frame_count := c,
                       guide_index :=
                         (if guide_strokes_world s \<noteq> []
                          then min c (max 0 (int (length (guide_strokes_world s)) - 1))
                          else 0),
                       pending_active := False\<rparr>))
             else if pending_active s then
               (if c \<noteq> pending_target s then
                  Done (s\<lparr>pending_target := c,
                          pending_last_pointlen :=
                            get_last_stroke_pointlen e (monitored_frame s),
                          pending_time := now e\<rparr>)
                else
                  (let cur_len = get_last_stroke_pointlen e (monitored_frame s)
                   in if cur_len \<noteq> pending_last_pointlen s then
                        Done (s\<lparr>pending_last_pointlen := cur_len, pending_time := now e\<rparr>)
                      else if debounce_seconds \<le> now e - pending_time s then
                        (let added = pending_target s - last_current_frame_count s
                         in if 0 < added
                            then clear_pending (advance e added (pending_target s) s)
                            else Done (s\<lparr>pending_active := False\<rparr>))
                      else Done s))
             else if last_current_frame_count s < c then
               (if advance_on_release e then
                  Done (s\<lparr>pending_active := True,
                          pending_target := c,
                          pending_time := now e,
                          pending_last_pointlen :=
                            get_last_stroke_pointlen e (monitored_frame s)\<rparr>)
                else advance e (c - last_current_frame_count s) c s)
             else if c < last_current_frame_count s then
               tag_redraw_all e
                 (s\<lparr>last_current_frame_count := c,
                    pending_active := False,
                    guide_index :=
                      (if guide_strokes_world s \<noteq> []
                       then min c (max 0 (int (length (guide_strokes_world s)) - 1))
                       else 0)\<rparr>)
             else Done s))"

text \<open>
  \<^verbatim>\<open>_watch_timer\<close>: the value returned to the host's timer (\<open>None\<close>: do not call
  again; \<open>Some d\<close>: call again in \<open>d\<close> seconds) and the session. The
  \<^verbatim>\<open>except Exception\<close> only logs, so both outcomes of the body continue to the final
  \<^verbatim>\<open>return 0.12\<close>.
\<close>

definition poll_interval :: real where
  "poll_interval = 12 / 100"

definition watch_timer :: "env \<Rightarrow> session \<Rightarrow> real option \<times> session" where
  "watch_timer e s =
     (if \<not> timer_keep s then (None, s)
      else if draw_handle s = None then (None, s\<lparr>timer_keep := False\<rparr>)
      else
        (case watch_body e s of
           Done s' \<Rightarrow> (Some poll_interval, s')
         | Raised s' \<Rightarrow> (Some poll_interval, s')))"

subsection \<open>Operators\<close>

datatype level = INFO | WARNING | ERROR

text \<open>
  What an operator does to the host besides assigning the globals, in order. The text of
  the success report of the start command has two holes, the number of hints and the
  monitored frame; \<open>ReportStarted\<close> carries them.
\<close>

datatype effect =
    Report level string
  | ReportStarted nat int
  | AddDrawHandler handle
  | RemoveDrawHandler handle
  | RegisterTimer
  | Redraw

text \<open>\<open>Uncaught\<close>: an exception left \<^verbatim>\<open>execute\<close>.\<close>

datatype op_return = FINISHED | CANCELLED | Uncaught

record op_result =
  effects :: "effect list"
  returned :: op_return
  after :: session

definition GP_OT_GuideStart_execute :: "env \<Rightarrow> session \<Rightarrow> op_result" where
  "GP_OT_GuideStart_execute e s =
     (case get_active_gp (ctx e) of
        None \<Rightarrow>
          \<lparr>effects = [Report WARNING ''Select a Grease Pencil object first''],
           returned = CANCELLED, after = s\<rparr>
      | Some ob \<Rightarrow>
          (case get_previous_frame_strokes_world e of
             Inl x \<Rightarrow> \<lparr>effects = [], returned = Uncaught, after = s\<rparr>
           | Inr strokes \<Rightarrow>
               if strokes = [] then
                 \<lparr>effects = [Report WARNING ''No strokes found in previous frame''],
                  returned = CANCELLED, after = s\<rparr>
               else
                 (let cur = frame_current (scene (ctx e));
                      s1 = s\<lparr>guide_strokes_world := strokes, monitored_frame := Some cur\<rparr>
                  in case get_frame_stroke_count e (Some cur) of
                       Inl x \<Rightarrow> \<lparr>effects = [], returned = Uncaught, after = s1\<rparr>
                     | Inr n \<Rightarrow>
                         (let s2 = s1\<lparr>last_current_frame_count := n,
                                       guide_index :=
                                         min n (max 0 (int (length strokes) - 1)),
                                       pending_active := False,
                                       advances_since_check := 0\<rparr>
                          in if draw_handle s2 = None \<and> raises e HandlerAdd then
                               \<lparr>effects = [Report ERROR ''Failed to add handler (see console)''],
                                returned = CANCELLED,
                                after = s2\<lparr>draw_handle := None\<rparr>\<rparr>
                             else
                               (let added = (if draw_handle s2 = None
                                             then [AddDrawHandler (new_handle e)] else []);
                                    s3 = (if draw_handle s2 = None
                                          then s2\<lparr>draw_handle := Some (new_handle e)\<rparr>
                                          else s2);
                                    s4 = s3\<lparr>timer_keep := True\<rparr>
                                in if raises e TagRedraw then
                                     \<lparr>effects = added @ [RegisterTimer],
                                      returned = Uncaught, after = s4\<rparr>
                                   else
                                     \<lparr>effects = added @
                                        [RegisterTimer, Redraw,
                                         ReportStarted (length strokes) cur],
                                      returned = FINISHED, after = s4\<rparr>)))))"

definition GP_OT_GuideStop_execute :: "env \<Rightarrow> session \<Rightarrow> op_result" where
  "GP_OT_GuideStop_execute e s =
     (let removed = (case draw_handle s of
                       None \<Rightarrow> []
                     | Some h \<Rightarrow> if raises e HandlerRemove then [] else [RemoveDrawHandler h]);
          s1 = s\<lparr>draw_handle := None, timer_keep := False, guide_strokes_world := [],
                 monitored_frame := None, pending_active := False\<rparr>
      in if raises e TagRedraw then
           \<lparr>effects = removed, returned = Uncaught, after = s1\<rparr>
         else
           \<lparr>effects = removed @ [Redraw, Report INFO ''Guides stopped''],
            returned = FINISHED, after = s1\<rparr>)"

subsection \<open>Draw handler: the choice of the guide stroke\<close>

text \<open>
  Subscripting a Python list: positions \<open>0 .. len - 1\<close> read from the front, positions
  \<open>-len .. -1\<close> read from the back, every other position is an \<^verbatim>\<open>IndexError\<close>.
\<close>

datatype py_error = IndexError

definition py_getitem :: "'a list \<Rightarrow> int \<Rightarrow> py_error + 'a" where
  "py_getitem xs i =
     (if 0 \<le> i \<and> i < int (length xs) then Inr (xs ! nat i)
      else if i < 0 \<and> - int (length xs) \<le> i then Inr (xs ! nat (int (length xs) + i))
      else Inl IndexError)"

record viewport =
  region :: "nat option"
  region_data :: "nat option"
  location_3d_to_region_2d :: "vec \<Rightarrow> (real \<times> real) option"

text \<open>
  \<^verbatim>\<open>draw_guides\<close> up to the projected points \<^verbatim>\<open>pts2d\<close>. The result lists the
  positions at which \<^verbatim>\<open>_guide_strokes_world\<close> is subscripted, and says how the
  function goes on: it returns without drawing, its \<^verbatim>\<open>except\<close> logs an error, or it
  draws the projected stroke. The GPU calls that draw markers, path and arrows from
  \<^verbatim>\<open>pts2d\<close> are not part of the model; the positions at which they subscript
  \<^verbatim>\<open>pts2d\<close> are, below.
\<close>

datatype draw_result = Returned | Logged py_error | Draws "(real \<times> real) list"

definition draw_guides :: "viewport \<Rightarrow> session \<Rightarrow> int list \<times> draw_result" where
  "draw_guides vp s =
     (if guide_strokes_world s = [] then ([], Returned)
      else if region vp = None \<or> region_data vp = None then ([], Returned)
      else
        (let idx = max 0 (min (guide_index s) (int (length (guide_strokes_world s)) - 1))
         in case py_getitem (guide_strokes_world s) idx of
              Inl err \<Rightarrow> ([idx], Logged err)
            | Inr stroke_world \<Rightarrow>
                (let pts2d = List.map_filter (location_3d_to_region_2d vp) stroke_world
                 in if pts2d = [] then ([idx], Returned) else ([idx], Draws pts2d))))"

text \<open>
  The drawing that follows subscripts \<^verbatim>\<open>pts2d\<close> again. \<open>pts2d_subscripts\<close> lists the
  positions, in order: position 0 for a single point; else the two end markers at 0 and -1
  and, for each \<open>i\<close> of the arrow loop or of the tick loop, \<open>i\<close> and \<open>i + 1\<close>. The
  settings are the values \<^verbatim>\<open>getattr\<close> returns for the scene. Python's
  \<^verbatim>\<open>range(a, b, step)\<close> with a positive step is \<open>py_range\<close>, \<^verbatim>\<open>int\<close> of a float
  truncates towards zero, \<^verbatim>\<open>math.ceil\<close> returns an integer. (The other lists the drawing
  subscripts are the corner lists of a marker, of fixed length, and \<^verbatim>\<open>mids\<close>, tested
  non-empty just before.)
\<close>

definition py_range :: "int \<Rightarrow> int \<Rightarrow> int \<Rightarrow> int list" where
  "py_range a b st = filter (\<lambda>i. (i - a) mod st = 0) [a..b - 1]"

definition py_int :: "real \<Rightarrow> int" where
  "py_int r = (if 0 \<le> r then \<lfloor>r\<rfloor> else \<lceil>r\<rceil>)"

record draw_settings =
  gi_show_arrows :: bool
  gi_arrow_density :: int
  gi_arrow_margin :: int

definition pts2d_subscripts :: "draw_settings \<Rightarrow> (real \<times> real) list \<Rightarrow> int list" where
  "pts2d_subscripts cfg pts2d =
     (if length pts2d = 1 then [0]
      else
        (let seg_count = int (length pts2d) - 1;
             margin_steps =
               max 0 (min \<lceil>real_of_int seg_count * (real_of_int (gi_arrow_margin cfg) / 100)\<rceil>
                          (seg_count div 2));
             step = max 1 (py_int (real_of_int seg_count
                                     / real_of_int (max 1 (gi_arrow_density cfg))))
         in [0, - 1] @
            (if gi_show_arrows cfg
             then concat (map (\<lambda>i. [i, i + 1])
                            (py_range margin_steps (seg_count - margin_steps) step))
             else concat (map (\<lambda>i. [i, i + 1]) (py_range 0 seg_count step)))))"

subsection \<open>The two places where the watcher advances\<close>

text \<open>
  The conditions under which \<^verbatim>\<open>_watch_timer\<close> reaches its immediate advance (with
  the live stroke count \<open>c\<close>) and the advance that resolves a pending commit: the
  conjunction of the tests on the path to each.
\<close>

definition immediate_advance :: "env \<Rightarrow> session \<Rightarrow> int \<Rightarrow> bool" where
  "immediate_advance e s c =
     (\<not> raises e ReadContext
      \<and> current_count e = Inr c
      \<and> monitored_frame s = Some (current_frame e)
      \<and> \<not> pending_active s
      \<and> last_current_frame_count s < c
      \<and> \<not> advance_on_release e)"

definition pending_commit :: "env \<Rightarrow> session \<Rightarrow> bool" where
  "pending_commit e s =
     (\<not> raises e ReadContext
      \<and> current_count e = Inr (pending_target s)
      \<and> monitored_frame s = Some (current_frame e)
      \<and> pending_active s
      \<and> get_last_stroke_pointlen e (monitored_frame s) = pending_last_pointlen s
      \<and> debounce_seconds \<le> now e - pending_time s
      \<and> last_current_frame_count s < pending_target s)"

subsection \<open>A concrete document, scene and session\<close>

text \<open>
  A Grease Pencil object with one layer: frame 1 holds the strokes \<open>src\<close> (the source of
  the guides), frame 2 holds \<open>k\<close> strokes of \<open>m\<close> points each. The theorems below are
  instantiated at these values.
\<close>

definition no_raise :: "host_call \<Rightarrow> bool" where
  "no_raise c = False"

definition raise_at :: "host_call \<Rightarrow> host_call \<Rightarrow> bool" where
  "raise_at c c' = (c' = c)"

definition two_strokes :: "stroke list" where
  "two_strokes = [[(0, 0, 0)], [(1, 0, 0), (1, 1, 0)]]"

definition three_strokes :: "stroke list" where
  "three_strokes = [[(0, 0, 0)], [(1, 0, 0), (1, 1, 0)], [(2, 0, 0)]]"

definition demo_layer :: "stroke list \<Rightarrow> nat \<Rightarrow> nat \<Rightarrow> gp_layer" where
  "demo_layer src k m =
     \<lparr>frames =
        [\<lparr>frame_number = 1, drawing = Some src\<rparr>,
         \<lparr>frame_number = 2, drawing = Some (replicate k (replicate m (0, 0, 0)))\<rparr>],
      active_frame = None\<rparr>"

definition demo_scene :: "int \<Rightarrow> bool \<Rightarrow> bool \<Rightarrow> int \<Rightarrow> scene" where
  "demo_scene cur lk rel thr =
     \<lparr>frame_current = cur, gi_lock_frame = Some lk, gi_advance_on_release = Some rel,
      gi_integrity_check = Some thr\<rparr>"

definition demo_env ::
  "scene \<Rightarrow> stroke list \<Rightarrow> nat \<Rightarrow> nat \<Rightarrow> real \<Rightarrow> (host_call \<Rightarrow> bool) \<Rightarrow> env" where
  "demo_env sc src k m t r =
     \<lparr>ctx = \<lparr>object = Some \<lparr>obj_type = ''GREASEPENCIL'', layers = [demo_layer src k m],
                             layers_active = Some (demo_layer src k m), matrix_world = id\<rparr>,
             scene = sc\<rparr>,
      now = t, raises = r, new_handle = 7\<rparr>"

text \<open>An active session on frame 2 with three cached guide strokes.\<close>

definition demo_session :: session where
  "demo_session =
     \<lparr>draw_handle = Some 7, timer_keep = True,
      guide_strokes_world = three_strokes,
      guide_index = 0, monitored_frame = Some 2, last_current_frame_count = 0,
      pending_active = False, pending_target = 0, pending_time = 0,
      pending_last_pointlen = 0, advances_since_check = 0\<rparr>"

definition demo_viewport :: viewport where
  "demo_viewport =
     \<lparr>region = Some 0, region_data = Some 0,
      location_3d_to_region_2d = case_prod (\<lambda>x. case_prod (\<lambda>y z. Some (x, y)))\<rparr>"

definition demo_settings_draw :: draw_settings where
  "demo_settings_draw = \<lparr>gi_show_arrows = True, gi_arrow_density = 12, gi_arrow_margin = 12\<rparr>"

subsection \<open>Sequences of polls\<close>

text \<open>The session after the host has called the watcher once for each environment in turn.\<close>

fun polls :: "env list \<Rightarrow> session \<Rightarrow> session" where
  "polls [] s = s"
| "polls (e # es) s = polls es (snd (watch_timer e s))"

subsection \<open>Concrete runs\<close>

text \<open>
  The start command on frame 2, which holds no stroke yet, with three strokes on frame 1;
  then polls of the watcher as strokes are drawn on frame 2 and the document or the settings
  change between polls.
\<close>

definition start_env :: env where
  "start_env = demo_env (demo_scene 2 False False 3) three_strokes 0 1 0 no_raise"


text \<open>
  Two strokes drawn at once with the interval at 3, then the interval set to 1 and a poll
  that finds nothing new.
\<close>

definition c2_run :: session where
  "c2_run =
     snd (watch_timer (demo_env (demo_scene 2 False False 1) three_strokes 2 1 0 no_raise)
       (snd (watch_timer (demo_env (demo_scene 2 False False 3) three_strokes 2 1 0 no_raise)
         (after (GP_OT_GuideStart_execute start_env initial_session)))))"

text \<open>
  The source frame emptied and one stroke drawn with the interval at 1: the snapshot that
  replaces the cached list is empty.
\<close>

definition c4_before :: session where
  "c4_before =
     snd (watch_timer (demo_env (demo_scene 2 False False 1) [] 1 1 0 no_raise)
       (after (GP_OT_GuideStart_execute start_env initial_session)))"

text \<open>
  Two strokes drawn in immediate mode, then advance-on-release switched on and a third
  stroke begun: a commit is pending with target 3 and last-seen count 2.
\<close>

definition c6_before :: session where
  "c6_before =
     snd (watch_timer (demo_env (demo_scene 2 False True 3) three_strokes 3 1 1 no_raise)
       (snd (watch_timer (demo_env (demo_scene 2 False False 3) three_strokes 2 1 0 no_raise)
         (after (GP_OT_GuideStart_execute start_env initial_session)))))"

text \<open>
  Lock-monitored-frame and advance-on-release both on, one stroke of one point on frame 2,
  the current frame \<open>cur\<close> at time \<open>t\<close>. In \<open>c5_before\<close> the stroke is begun on frame 2
  at time 0 (a commit becomes pending) and the user has stepped to frame 1, which holds three
  strokes, at 0.12 s.
\<close>

definition lock_env :: "int \<Rightarrow> real \<Rightarrow> env" where
  "lock_env cur t = demo_env (demo_scene cur True True 3) three_strokes 1 1 t no_raise"

definition c5_before :: session where
  "c5_before =
     snd (watch_timer (lock_env 1 (12 / 100))
       (snd (watch_timer (lock_env 2 0)
         (after (GP_OT_GuideStart_execute start_env initial_session)))))"

text \<open>
  Advance-on-release mode with one stroke of \<open>m\<close> points on frame 2 at time \<open>t\<close>, and
  a session whose commit for that stroke is pending since time 0.
\<close>

definition release_env :: "nat \<Rightarrow> real \<Rightarrow> env" where
  "release_env m t = demo_env (demo_scene 2 False True 3) three_strokes 1 m t no_raise"

definition pending_session :: session where
  "pending_session =
     demo_session\<lparr>pending_active := True, pending_target := 1, pending_last_pointlen := 1\<rparr>"

subsection \<open>Facts about the helpers of the watcher\<close>

lemma session_of_tag_redraw_all [simp]: "session_of (tag_redraw_all e s) = s"
  by (simp add: tag_redraw_all_def)

lemma session_of_clear_pending_fields [simp]:
  "draw_handle (session_of (clear_pending r)) = draw_handle (session_of r)"
  "timer_keep (session_of (clear_pending r)) = timer_keep (session_of r)"
  "guide_strokes_world (session_of (clear_pending r)) = guide_strokes_world (session_of r)"
  "guide_index (session_of (clear_pending r)) = guide_index (session_of r)"
  "monitored_frame (session_of (clear_pending r)) = monitored_frame (session_of r)"
  "last_current_frame_count (session_of (clear_pending r)) =
     last_current_frame_count (session_of r)"
  "pending_target (session_of (clear_pending r)) = pending_target (session_of r)"
  "pending_time (session_of (clear_pending r)) = pending_time (session_of r)"
  "pending_last_pointlen (session_of (clear_pending r)) = pending_last_pointlen (session_of r)"
  "advances_since_check (session_of (clear_pending r)) = advances_since_check (session_of r)"
  by (cases r; simp add: clear_pending_def)+

lemma advance_kept [simp]:
  "draw_handle (session_of (advance e a n s)) = draw_handle s"
  "timer_keep (session_of (advance e a n s)) = timer_keep s"
  "monitored_frame (session_of (advance e a n s)) = monitored_frame s"
  "pending_active (session_of (advance e a n s)) = pending_active s"
  "pending_target (session_of (advance e a n s)) = pending_target s"
  "pending_time (session_of (advance e a n s)) = pending_time s"
  "pending_last_pointlen (session_of (advance e a n s)) = pending_last_pointlen s"
  by (simp_all add: advance_def Let_def split: sum.split)

lemma advance_index [simp]:
  "guide_index (session_of (advance e a n s)) =
     min (guide_index s + a) (max 0 (int (length (guide_strokes_world s)) - 1))"
  by (simp add: advance_def Let_def split: sum.split)

lemma advance_last [simp]:
  "last_current_frame_count (session_of (advance e a n s)) = n"
  by (simp add: advance_def Let_def split: sum.split)

lemma advance_counter:
  "advances_since_check (session_of (advance e a n s)) =
     (if integrity_check e \<le> advances_since_check s + a then 0
      else advances_since_check s + a)"
  by (simp add: advance_def Let_def split: sum.split)

lemma advance_strokes:
  "guide_strokes_world (session_of (advance e a n s)) =
     (if integrity_check e \<le> advances_since_check s + a
      then (case get_previous_frame_strokes_world e of
              Inl x \<Rightarrow> guide_strokes_world s | Inr snap \<Rightarrow> snap)
      else guide_strokes_world s)"
  by (simp add: advance_def Let_def split: sum.split)

text \<open>The session after a poll that runs the body.\<close>

lemma watch_timer_active:
  "timer_keep s \<Longrightarrow> draw_handle s \<noteq> None \<Longrightarrow>
   watch_timer e s = (Some poll_interval, session_of (watch_body e s))"
  by (cases "watch_body e s") (simp_all add: watch_timer_def)

lemma watch_body_keeps_running:
  "timer_keep (session_of (watch_body e s)) = timer_keep s
   \<and> draw_handle (session_of (watch_body e s)) = draw_handle s"
  by (simp add: watch_body_def Let_def split: sum.split)


text \<open>
  The paths through the body of the watcher, each with the tests that lead to it and the
  outcome it produces.
\<close>

lemma watch_body_branches [case_names raise_ctx raise_count lock rebase retarget growing
    commit expire wait start immediate removal idle]:
  obtains
    "raises e ReadContext" "watch_body e s = Raised s"
  | "\<not> raises e ReadContext" "current_count e = Inl Exception" "watch_body e s = Raised s"
  | c mf where "\<not> raises e ReadContext" "current_count e = Inr c"
      "monitored_frame s = Some mf" "current_frame e \<noteq> mf" "lock_frame e"
      "watch_body e s = Done (s\<lparr>last_current_frame_count := c, pending_active := False\<rparr>)"
  | c where "\<not> raises e ReadContext" "current_count e = Inr c"
      "monitored_frame s \<noteq> Some (current_frame e)"
      "\<not> lock_frame e \<or> monitored_frame s = None"
      "watch_body e s =
         tag_redraw_all e
           (s\<lparr>monitored_frame := Some (current_frame e),
              last_current_frame_count := c,
              guide_index :=
                (if guide_strokes_world s \<noteq> []
                 then min c (max 0 (int (length (guide_strokes_world s)) - 1))
                 else 0),
              pending_active := False\<rparr>)"
  | c where "\<not> raises e ReadContext" "current_count e = Inr c"
      "monitored_frame s = Some (current_frame e)" "pending_active s"
      "c \<noteq> pending_target s"
      "watch_body e s =
         Done (s\<lparr>pending_target := c,
                 pending_last_pointlen := get_last_stroke_pointlen e (monitored_frame s),
                 pending_time := now e\<rparr>)"
  | "\<not> raises e ReadContext" "current_count e = Inr (pending_target s)"
      "monitored_frame s = Some (current_frame e)" "pending_active s"
      "get_last_stroke_pointlen e (monitored_frame s) \<noteq> pending_last_pointlen s"
      "watch_body e s =
         Done (s\<lparr>pending_last_pointlen := get_last_stroke_pointlen e (monitored_frame s),
                 pending_time := now e\<rparr>)"
  | "pending_commit e s"
      "watch_body e s =
         clear_pending
           (advance e (pending_target s - last_current_frame_count s) (pending_target s) s)"
  | "\<not> raises e ReadContext" "current_count e = Inr (pending_target s)"
      "monitored_frame s = Some (current_frame e)" "pending_active s"
      "get_last_stroke_pointlen e (monitored_frame s) = pending_last_pointlen s"
      "debounce_seconds \<le> now e - pending_time s"
      "pending_target s \<le> last_current_frame_count s"
      "watch_body e s = Done (s\<lparr>pending_active := False\<rparr>)"
  | "\<not> raises e ReadContext" "current_count e = Inr (pending_target s)"
      "monitored_frame s = Some (current_frame e)" "pending_active s"
      "get_last_stroke_pointlen e (monitored_frame s) = pending_last_pointlen s"
      "now e - pending_time s < debounce_seconds"
      "watch_body e s = Done s"
  | c where "\<not> raises e ReadContext" "current_count e = Inr c"
      "monitored_frame s = Some (current_frame e)" "\<not> pending_active s"
      "last_current_frame_count s < c" "advance_on_release e"
      "watch_body e s =
         Done (s\<lparr>pending_active := True, pending_target := c, pending_time := now e,
                 pending_last_pointlen := get_last_stroke_pointlen e (monitored_frame s)\<rparr>)"
  | c where "immediate_advance e s c"
      "watch_body e s = advance e (c - last_current_frame_count s) c s"
  | c where "\<not> raises e ReadContext" "current_count e = Inr c"
      "monitored_frame s = Some (current_frame e)" "\<not> pending_active s"
      "c < last_current_frame_count s"
      "watch_body e s =
         tag_redraw_all e
           (s\<lparr>last_current_frame_count := c,
              pending_active := False,
              guide_index :=
                (if guide_strokes_world s \<noteq> []
                 then min c (max 0 (int (length (guide_strokes_world s)) - 1))
                 else 0)\<rparr>)"
  | "\<not> raises e ReadContext" "current_count e = Inr (last_current_frame_count s)"
      "monitored_frame s = Some (current_frame e)" "\<not> pending_active s"
      "watch_body e s = Done s"
proof (cases "raises e ReadContext")
  case True
  then show ?thesis using that(1) by (simp add: watch_body_def)
next
  case nr: False
  show ?thesis
  proof (cases "current_count e")
    case (Inl x)
    then show ?thesis using nr that(2) by (cases x) (simp add: watch_body_def)
  next
    case cnt: (Inr c)
    show ?thesis
    proof (cases "monitored_frame s = Some (current_frame e)")
      case changed: False
      show ?thesis
      proof (cases "lock_frame e \<and> monitored_frame s \<noteq> None")
        case True
        then obtain mf where "monitored_frame s = Some mf" by auto
        with True changed nr cnt show ?thesis
          by (intro that(3) [of c mf]) (auto simp: watch_body_def)
      next
        case False
        with changed nr cnt show ?thesis
          by (intro that(4) [of c]) (auto simp: watch_body_def)
      qed
    next
      case same: True
      show ?thesis
      proof (cases "pending_active s")
        case pend: True
        show ?thesis
        proof (cases "c = pending_target s")
          case False
          with same pend nr cnt show ?thesis
            by (intro that(5) [of c]) (simp_all add: watch_body_def)
        next
          case tgt: True
          show ?thesis
          proof (cases "get_last_stroke_pointlen e (monitored_frame s) = pending_last_pointlen s")
            case False
            with same pend nr cnt tgt show ?thesis
              by (intro that(6)) (simp_all add: watch_body_def Let_def)
          next
            case pl: True
            show ?thesis
            proof (cases "debounce_seconds \<le> now e - pending_time s")
              case False
              with same pend nr cnt tgt pl show ?thesis
                by (intro that(9)) (simp_all add: watch_body_def Let_def)
            next
              case deb: True
              show ?thesis
              proof (cases "last_current_frame_count s < pending_target s")
                case True
                with same pend nr cnt tgt pl deb show ?thesis
                  by (intro that(7)) (simp_all add: watch_body_def Let_def pending_commit_def)
              next
                case False
                with same pend nr cnt tgt pl deb show ?thesis
                  by (intro that(8)) (simp_all add: watch_body_def Let_def)
              qed
            qed
          qed
        qed
      next
        case npend: False
        consider "last_current_frame_count s < c" | "c < last_current_frame_count s"
          | "c = last_current_frame_count s" by linarith
        then show ?thesis
        proof cases
          case 1
          show ?thesis
          proof (cases "advance_on_release e")
            case True
            with 1 same npend nr cnt show ?thesis
              by (intro that(10) [of c]) (simp_all add: watch_body_def)
          next
            case False
            with 1 same npend nr cnt show ?thesis
              by (intro that(11) [of c]) (simp_all add: watch_body_def immediate_advance_def)
          qed
        next
          case 2
          with same npend nr cnt show ?thesis
            by (intro that(12) [of c]) (simp_all add: watch_body_def)
        next
          case 3
          with same npend nr cnt show ?thesis
            by (intro that(13)) (simp_all add: watch_body_def)
        qed
      qed
    qed
  qed
qed


subsection \<open>Subscripts of the renderer\<close>

lemma py_range_bounds: "i \<in> set (py_range a b st) \<Longrightarrow> a \<le> i \<and> i < b"
  by (auto simp: py_range_def)

lemma py_getitem_ok:
  "- int (length xs) \<le> i \<Longrightarrow> i < int (length xs) \<Longrightarrow> \<exists>x. py_getitem xs i = Inr x"
  by (simp add: py_getitem_def)

lemma pts2d_subscripts_in_bounds:
  assumes "pts2d \<noteq> []" and "i \<in> set (pts2d_subscripts cfg pts2d)"
  shows "- int (length pts2d) \<le> i \<and> i < int (length pts2d)"
proof (cases "length pts2d = 1")
  case True
  with assms show ?thesis by (simp add: pts2d_subscripts_def)
next
  case False
  with assms(1) have len: "2 \<le> int (length pts2d)"
    by (cases pts2d) (auto simp: Suc_le_eq)
  define seg where "seg = int (length pts2d) - 1"
  define m where
    "m = max 0 (min \<lceil>real_of_int seg * (real_of_int (gi_arrow_margin cfg) / 100)\<rceil> (seg div 2))"
  define st where
    "st = max 1 (py_int (real_of_int seg / real_of_int (max 1 (gi_arrow_density cfg))))"
  have m0: "0 \<le> m" by (simp add: m_def)
  from assms(2) False consider "i = 0" | "i = - 1"
    | j where "j \<in> set (py_range m (seg - m) st)" "i = j \<or> i = j + 1"
    | j where "j \<in> set (py_range 0 seg st)" "i = j \<or> i = j + 1"
    by (auto simp: pts2d_subscripts_def Let_def seg_def m_def st_def split: if_splits)
  then show ?thesis
  proof cases
    case 1
    with len show ?thesis by linarith
  next
    case 2
    with len show ?thesis by linarith
  next
    case (3 j)
    from py_range_bounds [OF 3(1)] m0 3(2) len show ?thesis by (auto simp: seg_def)
  next
    case (4 j)
    from py_range_bounds [OF 4(1)] 4(2) len show ?thesis by (auto simp: seg_def)
  qed
qed

subsection \<open>Sequences of polls: the window behind a pending commit\<close>

lemma polls_snoc: "polls (es @ [e]) s = snd (watch_timer e (polls es s))"
  by (induction es arbitrary: s) simp_all

lemma polls_active:
  "timer_keep s \<Longrightarrow> draw_handle s \<noteq> None \<Longrightarrow>
   timer_keep (polls es s) \<and> draw_handle (polls es s) \<noteq> None"
  by (induction es arbitrary: s)
     (simp_all add: watch_timer_active watch_body_keeps_running)




text \<open>
  While a commit is pending, the time recorded with it is the clock of one of the polls made
  so far, and that poll and every later one found the frame monitored, the stroke count equal
  to the pending target and the last stroke's point count equal to the recorded one.
\<close>

lemma pending_window:
  assumes "timer_keep s0" and "draw_handle s0 \<noteq> None" and "\<not> pending_active s0"
    and "\<forall>x \<in> set es. \<not> raises x ReadContext \<and> current_count x \<noteq> Inl Exception"
    and "pending_active (polls es s0)"
  shows "\<exists>es1 ek es2. es = es1 @ ek # es2
    \<and> pending_time (polls es s0) = now ek
    \<and> (\<forall>x \<in> set (ek # es2).
          current_count x = Inr (pending_target (polls es s0))
          \<and> monitored_frame (polls es s0) = Some (current_frame x)
          \<and> get_last_stroke_pointlen x (Some (current_frame x)) =
              pending_last_pointlen (polls es s0))"
  using assms(4,5)
proof (induction es rule: rev_induct)
  case Nil
  with assms(3) show ?case by simp
next
  case (snoc e es)
  let ?s = "polls es s0"
  let ?s' = "polls (es @ [e]) s0"
  have act: "timer_keep ?s" "draw_handle ?s \<noteq> None"
    using polls_active [OF assms(1,2)] by blast+
  have s': "?s' = session_of (watch_body e ?s)"
    by (simp add: polls_snoc watch_timer_active act)
  have obs: "\<not> raises e ReadContext" "current_count e \<noteq> Inl Exception"
    using snoc.prems(1) by simp_all
  have obs_es: "\<forall>x \<in> set es. \<not> raises x ReadContext \<and> current_count x \<noteq> Inl Exception"
    using snoc.prems(1) by simp
  have pend': "pending_active (session_of (watch_body e ?s))"
    using snoc.prems(2) s' by simp
  have fresh: "\<exists>es1 ek es2. es @ [e] = es1 @ ek # es2
      \<and> pending_time ?s' = now ek
      \<and> (\<forall>x \<in> set (ek # es2).
            current_count x = Inr (pending_target ?s')
            \<and> monitored_frame ?s' = Some (current_frame x)
            \<and> get_last_stroke_pointlen x (Some (current_frame x)) = pending_last_pointlen ?s')"
    if "pending_time ?s' = now e" and "current_count e = Inr (pending_target ?s')"
      and "monitored_frame ?s' = Some (current_frame e)"
      and "get_last_stroke_pointlen e (Some (current_frame e)) = pending_last_pointlen ?s'"
    using that by (intro exI [of _ es] exI [of _ e] exI [of _ "[]"]) simp
  have extend: "\<exists>es1 ek es2. es @ [e] = es1 @ ek # es2
      \<and> pending_time ?s' = now ek
      \<and> (\<forall>x \<in> set (ek # es2).
            current_count x = Inr (pending_target ?s')
            \<and> monitored_frame ?s' = Some (current_frame x)
            \<and> get_last_stroke_pointlen x (Some (current_frame x)) = pending_last_pointlen ?s')"
    if p: "pending_active ?s"
      and same: "pending_time ?s' = pending_time ?s" "pending_target ?s' = pending_target ?s"
        "monitored_frame ?s' = monitored_frame ?s"
        "pending_last_pointlen ?s' = pending_last_pointlen ?s"
      and e: "current_count e = Inr (pending_target ?s)"
        "monitored_frame ?s = Some (current_frame e)"
        "get_last_stroke_pointlen e (Some (current_frame e)) = pending_last_pointlen ?s"
  proof -
    from snoc.IH [OF obs_es p] obtain es1 ek es2 where w: "es = es1 @ ek # es2"
      "pending_time ?s = now ek"
      "\<forall>x \<in> set (ek # es2).
          current_count x = Inr (pending_target ?s)
          \<and> monitored_frame ?s = Some (current_frame x)
          \<and> get_last_stroke_pointlen x (Some (current_frame x)) = pending_last_pointlen ?s"
      by blast
    show ?thesis
      using w same e by (intro exI [of _ es1] exI [of _ ek] exI [of _ "es2 @ [e]"]) auto
  qed
  show ?case
  proof (cases rule: watch_body_branches [of e ?s])
    case raise_ctx
    with obs show ?thesis by simp
  next
    case raise_count
    with obs show ?thesis by simp
  next
    case (lock c mf)
    with pend' show ?thesis by simp
  next
    case (rebase c)
    with pend' show ?thesis by simp
  next
    case (retarget c)
    then show ?thesis by (intro fresh) (simp_all add: s')
  next
    case growing
    then show ?thesis by (intro fresh) (simp_all add: s')
  next
    case commit
    then show ?thesis by (intro extend) (auto simp: s' pending_commit_def)
  next
    case expire
    with pend' show ?thesis by simp
  next
    case wait
    then show ?thesis by (intro extend) (simp_all add: s')
  next
    case (start c)
    then show ?thesis by (intro fresh) (simp_all add: s')
  next
    case (immediate c)
    with pend' show ?thesis by (simp add: immediate_advance_def)
  next
    case (removal c)
    with pend' show ?thesis by simp
  next
    case idle
    with pend' show ?thesis by simp
  qed
qed

subsection \<open>The concrete document evaluated\<close>

lemma demo_settings [simp]:
  "current_frame (demo_env (demo_scene cur lk rel thr) src k m t r) = cur"
  "lock_frame (demo_env (demo_scene cur lk rel thr) src k m t r) = lk"
  "advance_on_release (demo_env (demo_scene cur lk rel thr) src k m t r) = rel"
  "integrity_check (demo_env (demo_scene cur lk rel thr) src k m t r) = thr"
  "now (demo_env sc src k m t r) = t"
  "raises (demo_env sc src k m t r) = r"
  by (simp_all add: demo_env_def demo_scene_def lock_frame_def advance_on_release_def
      integrity_check_def current_frame_def)

lemma demo_count [simp]:
  "\<not> r ReadStrokeCount \<Longrightarrow> \<not> r LenStrokes \<Longrightarrow>
   get_frame_stroke_count (demo_env sc src k m t r) (Some 2) = Inr (int k)"
  by (simp add: get_frame_stroke_count_def demo_env_def get_active_gp_def find_frame_def
      demo_layer_def)

lemma demo_current_count [simp]:
  "\<not> r ReadStrokeCount \<Longrightarrow> \<not> r LenStrokes \<Longrightarrow>
   current_count (demo_env (demo_scene 2 lk rel thr) src k m t r) = Inr (int k)"
  by (simp add: current_count_def)

lemma demo_count_source [simp]:
  "\<not> r ReadStrokeCount \<Longrightarrow> \<not> r LenStrokes \<Longrightarrow>
   current_count (demo_env (demo_scene 1 lk rel thr) src k m t r) = Inr (int (length src))"
  by (simp add: current_count_def current_frame_def get_frame_stroke_count_def demo_env_def
      demo_scene_def get_active_gp_def find_frame_def demo_layer_def)

lemma demo_pointlen [simp]:
  "\<not> r ReadPointlen \<Longrightarrow> 0 < k \<Longrightarrow>
   get_last_stroke_pointlen (demo_env sc src k m t r) (Some 2) = int m"
  by (simp add: get_last_stroke_pointlen_def demo_env_def get_active_gp_def find_frame_def
      demo_layer_def)

lemma demo_snapshot [simp]:
  "\<not> r ReadSnapshot \<Longrightarrow> \<not> r CopyStrokes \<Longrightarrow>
   get_previous_frame_strokes_world (demo_env (demo_scene 2 lk rel thr) src k m t r) =
     Inr (filter (\<lambda>pts. 1 \<le> length pts) src)"
  by (simp add: get_previous_frame_strokes_world_def demo_env_def get_active_gp_def
      find_nearest_previous_frame_def demo_layer_def demo_scene_def)

lemma demo_session_fields [simp]:
  "draw_handle demo_session = Some 7"
  "timer_keep demo_session"
  "guide_strokes_world demo_session = three_strokes"
  "guide_index demo_session = 0"
  "monitored_frame demo_session = Some 2"
  "last_current_frame_count demo_session = 0"
  "\<not> pending_active demo_session"
  "pending_target demo_session = 0"
  "pending_time demo_session = 0"
  "pending_last_pointlen demo_session = 0"
  "advances_since_check demo_session = 0"
  by (simp_all add: demo_session_def)

lemma no_raise_simp [simp]: "\<not> no_raise c"
  by (simp add: no_raise_def)

lemma demo_start:
  "after (GP_OT_GuideStart_execute
     (demo_env (demo_scene 2 lk rel thr) three_strokes 0 m t no_raise) initial_session) =
   demo_session"
  by (simp add: GP_OT_GuideStart_execute_def get_active_gp_def demo_env_def demo_scene_def
      get_previous_frame_strokes_world_def find_nearest_previous_frame_def demo_layer_def
      get_frame_stroke_count_def find_frame_def initial_session_def demo_session_def
      three_strokes_def Let_def)

lemmas demo_eval =
  watch_timer_active watch_body_def advance_strokes advance_counter three_strokes_def
  two_strokes_def

lemma release_env_simps [simp]:
  "\<not> raises (release_env m t) c"
  "current_frame (release_env m t) = 2"
  "current_count (release_env m t) = Inr 1"
  "get_last_stroke_pointlen (release_env m t) (Some 2) = int m"
  "now (release_env m t) = t"
  "advance_on_release (release_env m t)"
  "integrity_check (release_env m t) = 3"
  by (simp_all add: release_env_def)

section \<open>The claims\<close>




text \<open>
  C2 as stated fails in its last part. In run \<open>c2_run\<close> two strokes are drawn with the
  interval at 3, so the counter is 2; the interval is then set to 1 and the next poll finds
  nothing new: after that poll the counter, still 2, is not below the threshold.
\<close>

theorem counter_above_threshold_counterexample:
  "\<not> advances_since_check c2_run
       < integrity_check (demo_env (demo_scene 2 False False 1) three_strokes 2 1 0 no_raise)"
  unfolding c2_run_def start_env_def demo_start by (simp add: demo_eval)

text \<open>
  C2, amended. In an active session whose counter is not negative, with a configured
  threshold of at least 1 read at the poll: a poll that advances (immediately or by resolving
  a pending commit) by \<open>added = c - last-seen\<close> leaves the counter at 0 exactly when counter
  + added reaches the threshold, else at counter + added, and in both cases strictly below
  the threshold; a poll changes the cached list only when it is such an advance and the
  counter is reset to 0 by it; a poll that is not an advance changes neither the counter nor
  the list, so the counter is below the threshold after a poll whenever it was below it
  before (it can stay at or above it only after the setting has been lowered, until the next
  advance).
\<close>

theorem integrity_counter_rule:
  assumes "timer_keep s" and "draw_handle s \<noteq> None"
    and "1 \<le> integrity_check e" and "0 \<le> advances_since_check s"
  shows "(immediate_advance e s c \<or> pending_commit e s \<and> c = pending_target s \<longrightarrow>
       advances_since_check (snd (watch_timer e s)) =
         (if integrity_check e \<le> advances_since_check s + (c - last_current_frame_count s)
          then 0 else advances_since_check s + (c - last_current_frame_count s))
       \<and> (advances_since_check (snd (watch_timer e s)) = 0 \<longleftrightarrow>
            integrity_check e \<le> advances_since_check s + (c - last_current_frame_count s))
       \<and> advances_since_check (snd (watch_timer e s)) < integrity_check e)
    \<and> (guide_strokes_world (snd (watch_timer e s)) \<noteq> guide_strokes_world s \<longrightarrow>
         (immediate_advance e s (last_current_frame_count (snd (watch_timer e s)))
          \<or> pending_commit e s)
         \<and> advances_since_check (snd (watch_timer e s)) = 0
         \<and> integrity_check e \<le> advances_since_check s
              + (last_current_frame_count (snd (watch_timer e s)) - last_current_frame_count s))
    \<and> (advances_since_check (snd (watch_timer e s)) \<noteq> advances_since_check s \<longrightarrow>
         immediate_advance e s (last_current_frame_count (snd (watch_timer e s)))
         \<or> pending_commit e s)
    \<and> (advances_since_check s < integrity_check e \<longrightarrow>
         advances_since_check (snd (watch_timer e s)) < integrity_check e)
    \<and> 0 \<le> advances_since_check (snd (watch_timer e s))"
proof -
  have s': "snd (watch_timer e s) = session_of (watch_body e s)"
    using assms by (simp add: watch_timer_active)
  show ?thesis
  proof (cases rule: watch_body_branches [of e s])
    case commit
    with assms show ?thesis
      by (auto simp: s' advance_counter advance_strokes pending_commit_def immediate_advance_def)
  next
    case (immediate c')
    with assms show ?thesis
      by (auto simp: s' advance_counter advance_strokes pending_commit_def immediate_advance_def)
  qed (use assms in \<open>auto simp: s' pending_commit_def immediate_advance_def\<close>)
qed

theorem integrity_counter_rule_witness:
  "1 \<le> integrity_check (demo_env (demo_scene 2 False False 1) two_strokes 1 1 0 no_raise)
   \<and> 0 \<le> advances_since_check demo_session
   \<and> immediate_advance (demo_env (demo_scene 2 False False 1) two_strokes 1 1 0 no_raise)
        demo_session 1
   \<and> advances_since_check (snd (watch_timer
        (demo_env (demo_scene 2 False False 1) two_strokes 1 1 0 no_raise) demo_session)) = 0
   \<and> guide_strokes_world (snd (watch_timer
        (demo_env (demo_scene 2 False False 1) two_strokes 1 1 0 no_raise) demo_session))
      \<noteq> guide_strokes_world demo_session"
  using integrity_counter_rule [of demo_session
      "demo_env (demo_scene 2 False False 1) two_strokes 1 1 0 no_raise" 1]
  by (simp add: demo_eval immediate_advance_def)

text \<open>
  C3 as stated fails. When the draw handler cannot be installed the start command has
  already assigned the session: started from the initial session, it is cancelled with the
  stroke list and the monitored frame changed.
\<close>

theorem start_failure_counterexample:
  "returned (GP_OT_GuideStart_execute
      (demo_env (demo_scene 2 False False 3) three_strokes 0 1 0 (raise_at HandlerAdd))
      initial_session) = CANCELLED
   \<and> guide_strokes_world (after (GP_OT_GuideStart_execute
      (demo_env (demo_scene 2 False False 3) three_strokes 0 1 0 (raise_at HandlerAdd))
      initial_session)) \<noteq> guide_strokes_world initial_session
   \<and> monitored_frame (after (GP_OT_GuideStart_execute
      (demo_env (demo_scene 2 False False 3) three_strokes 0 1 0 (raise_at HandlerAdd))
      initial_session)) \<noteq> monitored_frame initial_session"
  by (simp add: GP_OT_GuideStart_execute_def get_active_gp_def demo_env_def demo_scene_def
      get_previous_frame_strokes_world_def find_nearest_previous_frame_def demo_layer_def
      get_frame_stroke_count_def find_frame_def initial_session_def raise_at_def
      three_strokes_def Let_def)

text \<open>
  C3, amended. A cancelled start command is one of three cases. No active Grease Pencil
  object, or no stroke on a previous frame: one warning is reported and the session is
  unchanged. The draw handler cannot be installed: one error is reported, there was no
  handler before and there is none after, the keep-running flag and the pending target, time
  and point count are unchanged, no timer is registered, and the stroke list, monitored
  frame, last-seen count, guide index, pending flag and integrity counter hold the values a
  successful start gives them.
\<close>

theorem start_failure:
  assumes "returned (GP_OT_GuideStart_execute e s) = CANCELLED"
  shows "(get_active_gp (ctx e) = None
      \<and> effects (GP_OT_GuideStart_execute e s) =
          [Report WARNING ''Select a Grease Pencil object first'']
      \<and> after (GP_OT_GuideStart_execute e s) = s)
    \<or> (get_previous_frame_strokes_world e = Inr []
      \<and> effects (GP_OT_GuideStart_execute e s) =
          [Report WARNING ''No strokes found in previous frame'']
      \<and> after (GP_OT_GuideStart_execute e s) = s)
    \<or> (raises e HandlerAdd
      \<and> effects (GP_OT_GuideStart_execute e s) =
          [Report ERROR ''Failed to add handler (see console)'']
      \<and> draw_handle s = None
      \<and> draw_handle (after (GP_OT_GuideStart_execute e s)) = None
      \<and> timer_keep (after (GP_OT_GuideStart_execute e s)) = timer_keep s
      \<and> pending_target (after (GP_OT_GuideStart_execute e s)) = pending_target s
      \<and> pending_time (after (GP_OT_GuideStart_execute e s)) = pending_time s
      \<and> pending_last_pointlen (after (GP_OT_GuideStart_execute e s)) = pending_last_pointlen s
      \<and> get_previous_frame_strokes_world e =
          Inr (guide_strokes_world (after (GP_OT_GuideStart_execute e s)))
      \<and> monitored_frame (after (GP_OT_GuideStart_execute e s)) = Some (current_frame e)
      \<and> current_count e =
          Inr (last_current_frame_count (after (GP_OT_GuideStart_execute e s)))
      \<and> guide_index (after (GP_OT_GuideStart_execute e s)) =
          min (last_current_frame_count (after (GP_OT_GuideStart_execute e s)))
            (max 0 (int (length (guide_strokes_world (after (GP_OT_GuideStart_execute e s)))) - 1))
      \<and> \<not> pending_active (after (GP_OT_GuideStart_execute e s))
      \<and> advances_since_check (after (GP_OT_GuideStart_execute e s)) = 0)"
  using assms
  by (auto simp: GP_OT_GuideStart_execute_def Let_def current_count_def current_frame_def
      split: option.splits sum.splits if_splits)

theorem start_failure_witness:
  "returned (GP_OT_GuideStart_execute
      (demo_env (demo_scene 2 False False 3) [] 0 1 0 no_raise) demo_session) = CANCELLED
   \<and> after (GP_OT_GuideStart_execute
      (demo_env (demo_scene 2 False False 3) [] 0 1 0 no_raise) demo_session) = demo_session
   \<and> returned (GP_OT_GuideStart_execute
      (demo_env (demo_scene 2 False False 3) three_strokes 0 1 0 (raise_at HandlerAdd))
      initial_session) = CANCELLED
   \<and> draw_handle (after (GP_OT_GuideStart_execute
      (demo_env (demo_scene 2 False False 3) three_strokes 0 1 0 (raise_at HandlerAdd))
      initial_session)) = None"
  using start_failure [of "demo_env (demo_scene 2 False False 3) [] 0 1 0 no_raise" demo_session]
    start_failure [of
      "demo_env (demo_scene 2 False False 3) three_strokes 0 1 0 (raise_at HandlerAdd)"
      initial_session]
  by (simp add: GP_OT_GuideStart_execute_def get_active_gp_def demo_env_def demo_scene_def
      get_previous_frame_strokes_world_def find_nearest_previous_frame_def demo_layer_def
      get_frame_stroke_count_def find_frame_def initial_session_def raise_at_def
      three_strokes_def Let_def)

text \<open>
  C4 as stated fails when the cached list is empty (it is after an integrity check that
  found no source stroke, session \<open>c4_before\<close>): the next immediate advance sets the index
  to 0, not to \<open>min (index + added) (len - 1) = -1\<close>.
\<close>

theorem advance_formula_counterexample:
  "immediate_advance (demo_env (demo_scene 2 False False 3) [] 2 1 0 no_raise) c4_before 2
   \<and> guide_index (snd (watch_timer (demo_env (demo_scene 2 False False 3) [] 2 1 0 no_raise)
        c4_before))
     \<noteq> min (guide_index c4_before + (2 - last_current_frame_count c4_before))
           (int (length (guide_strokes_world c4_before)) - 1)"
  unfolding c4_before_def start_env_def demo_start
  by (simp add: demo_eval immediate_advance_def)

text \<open>
  C4, amended. For every advance of the watcher in an active session, immediate with live
  count \<open>c\<close> or resolving a pending commit with target \<open>c\<close>, \<open>added = c - last-seen\<close> is
  positive, the new guide index is \<open>min (index + added) (max 0 (len - 1))\<close> for the length of
  the cached list before the poll, which is \<open>min (index + added) (len - 1)\<close> when that list
  is not empty, and the last-seen count becomes \<open>c\<close>.
\<close>

theorem advance_index_delta:
  assumes "timer_keep s" and "draw_handle s \<noteq> None"
    and "immediate_advance e s c \<or> pending_commit e s \<and> c = pending_target s"
  shows "0 < c - last_current_frame_count s
    \<and> guide_index (snd (watch_timer e s)) =
        min (guide_index s + (c - last_current_frame_count s))
            (max 0 (int (length (guide_strokes_world s)) - 1))
    \<and> (guide_strokes_world s \<noteq> [] \<longrightarrow>
         guide_index (snd (watch_timer e s)) =
           min (guide_index s + (c - last_current_frame_count s))
               (int (length (guide_strokes_world s)) - 1))
    \<and> last_current_frame_count (snd (watch_timer e s)) = c"
proof -
  have s': "snd (watch_timer e s) = session_of (watch_body e s)"
    using assms by (simp add: watch_timer_active)
  show ?thesis
  proof (cases rule: watch_body_branches [of e s])
    case commit
    with assms show ?thesis
      by (cases "guide_strokes_world s") (auto simp: s' pending_commit_def immediate_advance_def)
  next
    case (immediate c')
    with assms show ?thesis
      by (cases "guide_strokes_world s") (auto simp: s' pending_commit_def immediate_advance_def)
  qed (use assms in \<open>auto simp: s' pending_commit_def immediate_advance_def\<close>)
qed

theorem advance_index_delta_witness:
  "immediate_advance (demo_env (demo_scene 2 False False 3) three_strokes 1 1 0 no_raise)
      demo_session 1
   \<and> guide_index (snd (watch_timer
        (demo_env (demo_scene 2 False False 3) three_strokes 1 1 0 no_raise) demo_session)) = 1
   \<and> last_current_frame_count (snd (watch_timer
        (demo_env (demo_scene 2 False False 3) three_strokes 1 1 0 no_raise) demo_session)) = 1
   \<and> pending_commit (release_env 1 1) pending_session
   \<and> guide_index (snd (watch_timer (release_env 1 1) pending_session)) = 1"
  using advance_index_delta [of demo_session
      "demo_env (demo_scene 2 False False 3) three_strokes 1 1 0 no_raise" 1]
    advance_index_delta [of pending_session "release_env 1 1" 1]
  by (simp add: demo_eval immediate_advance_def pending_commit_def release_env_def
      pending_session_def debounce_seconds_def)

text \<open>
  C5 as stated fails. With lock-monitored-frame and advance-on-release on, a stroke is begun
  on the monitored frame 2 at time 0 and the user steps to frame 1 (three strokes) at 0.12 s:
  the locked poll sets the last-seen count to 3 and drops the pending commit. Back on
  frame 2 at 0.24 s the stroke count, still 1, is below the last-seen count, and the removal
  path moves the guide index from 0 to 1 at once, less than the debounce interval after the
  stroke was begun.
\<close>

theorem index_moves_without_debounce_counterexample:
  "advance_on_release (lock_env 2 (24 / 100))
   \<and> current_count (lock_env 2 0) = current_count (lock_env 2 (24 / 100))
   \<and> now (lock_env 2 (24 / 100)) - now (lock_env 2 0) < debounce_seconds
   \<and> monitored_frame c5_before = Some (current_frame (lock_env 2 (24 / 100)))
   \<and> guide_index c5_before = 0
   \<and> guide_index (snd (watch_timer (lock_env 2 (24 / 100)) c5_before)) = 1"
  unfolding c5_before_def start_env_def demo_start
  by (simp add: lock_env_def demo_eval debounce_seconds_def)

text \<open>
  C5, amended. Take an active session with no commit pending, any sequence of polls whose
  reads of the frame and of the stroke count return, and one more poll on the monitored
  frame; let \<open>s\<close> and \<open>s'\<close> be the sessions before and after that poll. With a commit
  pending, a poll that finds the stroke count different from the target or the last stroke's
  point count (as the watcher reads it, 0 when the read fails) different from the recorded
  one changes neither the guide index nor the last-seen count, keeps the commit pending and
  restarts the debounce timer; a poll made less than the debounce interval (0.35 s) after the
  recorded time changes neither and keeps the commit pending. With a commit pending, a poll
  that changes the guide index comes at least the debounce interval after an earlier poll of
  the sequence, and that poll, every poll since and the committing poll found the same frame,
  the same stroke count and the same point count of the last stroke. With no commit pending,
  in advance-on-release mode, a poll that finds the stroke count not below the last-seen
  count changes neither the guide index nor the last-seen count. With no commit pending and
  the stroke count \<open>c\<close> below the last-seen count (strokes removed, or the last-seen count
  taken from another frame by a locked frame switch), the poll sets the index at once, with
  no debounce, to \<open>min c (max 0 (len - 1))\<close>, or to 0 when the cached list is empty.
\<close>

theorem index_moves_by_commit_or_removal:
  assumes "timer_keep s0" and "draw_handle s0 \<noteq> None" and "\<not> pending_active s0"
    and "\<forall>x \<in> set (es @ [e]). \<not> raises x ReadContext \<and> current_count x \<noteq> Inl Exception"
    and "s = polls es s0" and "s' = polls (es @ [e]) s0"
    and "monitored_frame s = Some (current_frame e)"
  shows "(\<not> pending_active s \<and> advance_on_release e \<and> current_count e = Inr c
        \<and> last_current_frame_count s \<le> c \<longrightarrow>
          guide_index s' = guide_index s
          \<and> last_current_frame_count s' = last_current_frame_count s)
    \<and> (\<not> pending_active s \<and> current_count e = Inr c
        \<and> c < last_current_frame_count s \<longrightarrow>
          guide_index s' =
            (if guide_strokes_world s \<noteq> []
             then min c (max 0 (int (length (guide_strokes_world s)) - 1)) else 0)
          \<and> last_current_frame_count s' = c
          \<and> \<not> pending_active s')
    \<and> (pending_active s
        \<and> (current_count e \<noteq> Inr (pending_target s)
           \<or> get_last_stroke_pointlen e (Some (current_frame e)) \<noteq> pending_last_pointlen s)
        \<longrightarrow> guide_index s' = guide_index s
          \<and> last_current_frame_count s' = last_current_frame_count s
          \<and> pending_active s' \<and> pending_time s' = now e)
    \<and> (pending_active s \<and> now e - pending_time s < debounce_seconds \<longrightarrow>
          guide_index s' = guide_index s
          \<and> last_current_frame_count s' = last_current_frame_count s
          \<and> pending_active s')
    \<and> (pending_active s \<and> guide_index s' \<noteq> guide_index s \<longrightarrow>
          (\<exists>es1 ek es2. es = es1 @ ek # es2
             \<and> debounce_seconds \<le> now e - now ek
             \<and> (\<forall>x \<in> set (ek # es2 @ [e]).
                   current_count x = current_count e
                   \<and> current_frame x = current_frame e
                   \<and> get_last_stroke_pointlen x (Some (current_frame x)) =
                       get_last_stroke_pointlen e (Some (current_frame e)))))
    \<and> debounce_seconds = 35 / 100"
proof -
  have act: "timer_keep s" "draw_handle s \<noteq> None"
    using polls_active [OF assms(1,2)] assms(5) by blast+
  have s': "s' = session_of (watch_body e s)"
    using assms(5,6) act by (simp add: polls_snoc watch_timer_active)
  have obs: "\<not> raises e ReadContext" "current_count e \<noteq> Inl Exception"
    using assms(4) by simp_all
  have obs_es: "\<forall>x \<in> set es. \<not> raises x ReadContext \<and> current_count x \<noteq> Inl Exception"
    using assms(4) by simp
  note same = assms(7)
  have window: "\<exists>es1 ek es2. es = es1 @ ek # es2
             \<and> debounce_seconds \<le> now e - now ek
             \<and> (\<forall>x \<in> set (ek # es2 @ [e]).
                   current_count x = current_count e
                   \<and> current_frame x = current_frame e
                   \<and> get_last_stroke_pointlen x (Some (current_frame x)) =
                       get_last_stroke_pointlen e (Some (current_frame e)))"
    if pc: "pending_commit e s"
  proof -
    from pc have p: "pending_active s" by (simp add: pending_commit_def)
    from pending_window [OF assms(1,2,3) obs_es] p assms(5)
    obtain es1 ek es2 where w: "es = es1 @ ek # es2" "pending_time s = now ek"
      "\<forall>x \<in> set (ek # es2).
          current_count x = Inr (pending_target s)
          \<and> monitored_frame s = Some (current_frame x)
          \<and> get_last_stroke_pointlen x (Some (current_frame x)) = pending_last_pointlen s"
      by blast
    show ?thesis
      using w pc same
      by (intro exI [of _ es1] exI [of _ ek] exI [of _ es2]) (auto simp: pending_commit_def)
  qed
  show ?thesis
  proof (cases rule: watch_body_branches [of e s])
    case commit
    with window same show ?thesis
      by (auto simp: s' pending_commit_def debounce_seconds_def)
  qed (use obs same in \<open>auto simp: s' immediate_advance_def debounce_seconds_def\<close>)
qed

theorem index_moves_by_commit_or_removal_witness:
  "pending_active (polls [release_env 1 0, release_env 2 (1 / 10), release_env 2 (3 / 10)]
      demo_session)
   \<and> guide_index (polls [release_env 1 0, release_env 2 (1 / 10), release_env 2 (3 / 10)]
      demo_session) = 0
   \<and> guide_index (polls ([release_env 1 0, release_env 2 (1 / 10), release_env 2 (3 / 10)]
        @ [release_env 2 (1 / 2)]) demo_session) = 1
   \<and> debounce_seconds \<le> now (release_env 2 (1 / 2)) - now (release_env 2 (1 / 10))"
  using index_moves_by_commit_or_removal [of demo_session
      "[release_env 1 0, release_env 2 (1 / 10), release_env 2 (3 / 10)]"
      "release_env 2 (1 / 2)"
      "polls [release_env 1 0, release_env 2 (1 / 10), release_env 2 (3 / 10)] demo_session"
      "polls ([release_env 1 0, release_env 2 (1 / 10), release_env 2 (3 / 10)]
         @ [release_env 2 (1 / 2)]) demo_session" 1]
  by (simp add: watch_timer_active watch_body_def debounce_seconds_def advance_counter
      advance_strokes three_strokes_def)

text \<open>
  C6 as stated fails while a commit is pending. In session \<open>c6_before\<close> the last-seen
  count is 2 and a commit is pending; a poll that finds one stroke takes the pending path:
  the commit stays pending and the last-seen count is not resynchronized.
\<close>

theorem removal_deferred_counterexample:
  "current_count (demo_env (demo_scene 2 False True 3) three_strokes 1 1 1 no_raise) = Inr 1
   \<and> 1 < last_current_frame_count c6_before
   \<and> pending_active (snd (watch_timer
        (demo_env (demo_scene 2 False True 3) three_strokes 1 1 1 no_raise) c6_before))
   \<and> last_current_frame_count (snd (watch_timer
        (demo_env (demo_scene 2 False True 3) three_strokes 1 1 1 no_raise) c6_before)) \<noteq> 1"
  unfolding c6_before_def start_env_def demo_start by (simp add: demo_eval)

text \<open>
  C6, amended. For every poll of an active session on the monitored frame with no commit
  pending in which the live stroke count \<open>c\<close> is below the last-seen count, whatever the
  advance-on-release mode: no commit is pending after the poll, the last-seen count is
  \<open>c\<close>, the guide index is \<open>min c (len - 1)\<close> when the cached list is not empty and 0 when
  it is empty, and nothing else in the session changes.
\<close>

theorem removal_resync:
  assumes "timer_keep s" and "draw_handle s \<noteq> None"
    and "\<not> raises e ReadContext" and "current_count e = Inr c"
    and "monitored_frame s = Some (current_frame e)"
    and "\<not> pending_active s" and "c < last_current_frame_count s"
  shows "\<not> pending_active (snd (watch_timer e s))
    \<and> last_current_frame_count (snd (watch_timer e s)) = c
    \<and> (guide_strokes_world s \<noteq> [] \<longrightarrow>
         guide_index (snd (watch_timer e s)) = min c (int (length (guide_strokes_world s)) - 1))
    \<and> (guide_strokes_world s = [] \<longrightarrow> guide_index (snd (watch_timer e s)) = 0)
    \<and> snd (watch_timer e s) =
        s\<lparr>last_current_frame_count := c, pending_active := False,
          guide_index := guide_index (snd (watch_timer e s))\<rparr>"
proof -
  have s': "snd (watch_timer e s) = session_of (watch_body e s)"
    using assms by (simp add: watch_timer_active)
  show ?thesis
  proof (cases rule: watch_body_branches [of e s])
    case (removal c')
    with assms show ?thesis
      by (cases "guide_strokes_world s") (auto simp: s')
  qed (use assms in \<open>auto simp: s' pending_commit_def immediate_advance_def\<close>)
qed

theorem removal_resync_witness:
  "current_count (demo_env (demo_scene 2 False True 3) three_strokes 1 1 0 no_raise) = Inr 1
   \<and> 1 < last_current_frame_count
        (demo_session\<lparr>guide_index := 2, last_current_frame_count := 2\<rparr>)
   \<and> last_current_frame_count (snd (watch_timer
        (demo_env (demo_scene 2 False True 3) three_strokes 1 1 0 no_raise)
        (demo_session\<lparr>guide_index := 2, last_current_frame_count := 2\<rparr>))) = 1
   \<and> guide_index (snd (watch_timer
        (demo_env (demo_scene 2 False True 3) three_strokes 1 1 0 no_raise)
        (demo_session\<lparr>guide_index := 2, last_current_frame_count := 2\<rparr>))) = 1"
  using removal_resync [of "demo_session\<lparr>guide_index := 2, last_current_frame_count := 2\<rparr>"
      "demo_env (demo_scene 2 False True 3) three_strokes 1 1 0 no_raise" 1]
  by (simp add: three_strokes_def)

text \<open>
  C7. A poll that finds the current frame different from the monitored frame, with the
  lock-monitored-frame option on and a monitored frame set, changes only the last-seen
  stroke count (set to the count of the new frame) and the pending-commit flag (cleared):
  the session after the poll is the session before it with these two fields assigned, so
  the monitored frame, the guide index, the cached stroke list and the integrity counter
  are the same. The poll is one of an active session (keep-running flag set, draw handler
  present) whose reads of the frame and of the stroke count return.
\<close>

theorem lock_frame_resync:
  assumes "timer_keep s" and "draw_handle s \<noteq> None"
    and "\<not> raises e ReadContext"
    and "current_count e = Inr c"
    and "monitored_frame s = Some mf" and "current_frame e \<noteq> mf"
    and "lock_frame e"
  shows "watch_timer e s =
    (Some poll_interval, s\<lparr>last_current_frame_count := c, pending_active := False\<rparr>)"
  using assms by (simp add: watch_timer_active watch_body_def)

theorem lock_frame_resync_witness:
  "watch_timer (demo_env (demo_scene 2 True False 3) two_strokes 2 1 0 no_raise)
     (demo_session\<lparr>monitored_frame := Some 1, pending_active := True\<rparr>) =
   (Some poll_interval,
    demo_session\<lparr>monitored_frame := Some 1, pending_active := True,
                  last_current_frame_count := 2, pending_active := False\<rparr>)"
  using lock_frame_resync [of "demo_session\<lparr>monitored_frame := Some 1, pending_active := True\<rparr>"
      "demo_env (demo_scene 2 True False 3) two_strokes 2 1 0 no_raise" 2 1]
  by simp

text \<open>
  C8. A poll of the watcher with the keep-running flag set and a draw handler present
  returns the reschedule interval of 0.12 seconds whatever host call raises inside its
  body: the exception is caught, none reaches the caller, and the flag and the handler are
  as before, so the next poll runs as well.
\<close>

theorem watch_timer_catches:
  assumes "timer_keep s" and "draw_handle s \<noteq> None"
  shows "fst (watch_timer e s) = Some poll_interval
    \<and> poll_interval = 12 / 100
    \<and> timer_keep (snd (watch_timer e s))
    \<and> draw_handle (snd (watch_timer e s)) = draw_handle s"
  using assms by (simp add: watch_timer_active watch_body_keeps_running poll_interval_def)

theorem watch_timer_catches_witness:
  "fst (watch_timer (demo_env (demo_scene 2 False False 3) two_strokes 1 1 0 (raise_at ReadStrokeCount))
          demo_session) = Some (12 / 100)
   \<and> timer_keep (snd (watch_timer
          (demo_env (demo_scene 2 False False 3) two_strokes 1 1 0 (raise_at ReadStrokeCount)) demo_session))
   \<and> current_count
        (demo_env (demo_scene 2 False False 3) two_strokes 1 1 0 (raise_at ReadStrokeCount)) =
      Inl Exception"
  using watch_timer_catches [of demo_session
      "demo_env (demo_scene 2 False False 3) two_strokes 1 1 0 (raise_at ReadStrokeCount)"]
  by (simp add: current_count_def get_frame_stroke_count_def raise_at_def)

text \<open>
  C9. The stop command is idempotent: from every session, the session after a second stop
  is the session after the first. After one stop the draw handler is absent, the
  keep-running flag is cleared, the stroke list is empty, the monitored frame is cleared and
  no commit is pending; the second stop removes no handler from the host, it only requests
  a redraw and reports.
\<close>

theorem stop_idempotent:
  "after (GP_OT_GuideStop_execute e2 (after (GP_OT_GuideStop_execute e1 s))) =
     after (GP_OT_GuideStop_execute e1 s)
   \<and> draw_handle (after (GP_OT_GuideStop_execute e1 s)) = None
   \<and> \<not> timer_keep (after (GP_OT_GuideStop_execute e1 s))
   \<and> guide_strokes_world (after (GP_OT_GuideStop_execute e1 s)) = []
   \<and> monitored_frame (after (GP_OT_GuideStop_execute e1 s)) = None
   \<and> \<not> pending_active (after (GP_OT_GuideStop_execute e1 s))
   \<and> effects (GP_OT_GuideStop_execute e2 (after (GP_OT_GuideStop_execute e1 s))) =
       (if raises e2 TagRedraw then [] else [Redraw, Report INFO ''Guides stopped''])"
  by (simp add: GP_OT_GuideStop_execute_def Let_def)

theorem stop_idempotent_witness:
  "after (GP_OT_GuideStop_execute (demo_env (demo_scene 2 False False 3) two_strokes 1 1 0 no_raise)
      (after (GP_OT_GuideStop_execute
         (demo_env (demo_scene 2 False False 3) two_strokes 1 1 0 (raise_at HandlerRemove)) demo_session))) =
   after (GP_OT_GuideStop_execute
      (demo_env (demo_scene 2 False False 3) two_strokes 1 1 0 (raise_at HandlerRemove)) demo_session)"
  using stop_idempotent [of "demo_env (demo_scene 2 False False 3) two_strokes 1 1 0 no_raise"
      "demo_env (demo_scene 2 False False 3) two_strokes 1 1 0 (raise_at HandlerRemove)" demo_session]
  by simp

text \<open>
  C10. For every guide index and every cached stroke list, the renderer subscripts the list
  at most once, at position \<open>max 0 (min index (len - 1))\<close>; when the list is not empty this
  position is at least 0 and below the length, so the subscript returns an element and the
  renderer's handler never logs an index error; when the list is empty the renderer returns
  without subscripting and without drawing. When it draws, the projected points are not
  empty and, for every setting of arrows, density and margin, each position at which the
  drawing subscripts them returns an element.
\<close>

theorem draw_guides_in_bounds:
  "(guide_strokes_world s = [] \<longrightarrow> draw_guides vp s = ([], Returned))
   \<and> (guide_strokes_world s \<noteq> [] \<longrightarrow>
        0 \<le> max 0 (min (guide_index s) (int (length (guide_strokes_world s)) - 1))
        \<and> max 0 (min (guide_index s) (int (length (guide_strokes_world s)) - 1))
            < int (length (guide_strokes_world s)))
   \<and> (fst (draw_guides vp s) = []
        \<or> fst (draw_guides vp s) =
            [max 0 (min (guide_index s) (int (length (guide_strokes_world s)) - 1))])
   \<and> (\<forall>i \<in> set (fst (draw_guides vp s)).
        py_getitem (guide_strokes_world s) i = Inr (guide_strokes_world s ! nat i))
   \<and> (\<forall>err. snd (draw_guides vp s) \<noteq> Logged err)
   \<and> (\<forall>pts2d cfg. snd (draw_guides vp s) = Draws pts2d \<longrightarrow>
        pts2d \<noteq> []
        \<and> (\<forall>i \<in> set (pts2d_subscripts cfg pts2d). \<exists>p. py_getitem pts2d i = Inr p))"
proof -
  have "pts2d \<noteq> [] \<and> (\<forall>i \<in> set (pts2d_subscripts cfg pts2d). \<exists>p. py_getitem pts2d i = Inr p)"
    if "snd (draw_guides vp s) = Draws pts2d" for pts2d cfg
  proof -
    from that have "pts2d \<noteq> []"
      by (auto simp: draw_guides_def Let_def split: if_splits sum.splits)
    then show ?thesis
      using pts2d_subscripts_in_bounds [of pts2d _ cfg] py_getitem_ok [of pts2d] by blast
  qed
  moreover have "(guide_strokes_world s = [] \<longrightarrow> draw_guides vp s = ([], Returned))
   \<and> (guide_strokes_world s \<noteq> [] \<longrightarrow>
        0 \<le> max 0 (min (guide_index s) (int (length (guide_strokes_world s)) - 1))
        \<and> max 0 (min (guide_index s) (int (length (guide_strokes_world s)) - 1))
            < int (length (guide_strokes_world s)))
   \<and> (fst (draw_guides vp s) = []
        \<or> fst (draw_guides vp s) =
            [max 0 (min (guide_index s) (int (length (guide_strokes_world s)) - 1))])
   \<and> (\<forall>i \<in> set (fst (draw_guides vp s)).
        py_getitem (guide_strokes_world s) i = Inr (guide_strokes_world s ! nat i))
   \<and> (\<forall>err. snd (draw_guides vp s) \<noteq> Logged err)"
    by (cases "guide_strokes_world s")
       (auto simp: draw_guides_def py_getitem_def Let_def split: sum.splits)
  ultimately show ?thesis by blast
qed

theorem draw_guides_in_bounds_witness:
  "draw_guides demo_viewport (demo_session\<lparr>guide_index := 5\<rparr>) = ([2], Draws [(2, 0)])
   \<and> py_getitem (guide_strokes_world (demo_session\<lparr>guide_index := 5\<rparr>)) 2 = Inr [(2, 0, 0)]
   \<and> draw_guides demo_viewport (demo_session\<lparr>guide_strokes_world := []\<rparr>) = ([], Returned)
   \<and> pts2d_subscripts demo_settings_draw [(2, 0)] = [0]
   \<and> py_getitem [(2, 0)] 0 = Inr (2 :: real, 0 :: real)"
  using draw_guides_in_bounds [of "demo_session\<lparr>guide_index := 5\<rparr>" demo_viewport]
    draw_guides_in_bounds [of "demo_session\<lparr>guide_strokes_world := []\<rparr>" demo_viewport]
  by (simp add: draw_guides_def demo_viewport_def py_getitem_def List.map_filter_def
      three_strokes_def pts2d_subscripts_def)

end
